theory Spec2Isabelle
  imports Complex_Main
begin

section \<open>Numeric helpers of the array library, as the code uses them\<close>

text \<open>
  Samples are modelled as real numbers; a signal, a mode and every one-dimensional array is
  a \<open>real list\<close>, and the elementwise products, differences and sums are exact.  The
  array returned by the decomposer is the list of its rows.  Where the array library yields
  \<open>nan\<close> (the mean or the standard deviation of an empty array) the model yields
  \<open>None\<close>, and a comparison with \<open>nan\<close> is false, as in the source language.

  The standard deviation \<open>np.std\<close> is computed in floating point, and the decomposition
  compares it with the threshold \<open>1e-10\<close>: for a constant array the computed value is
  rounding noise, which can lie on either side of the threshold.  The decomposition therefore
  takes the computed standard deviation as a parameter \<open>np_std\<close>, about which nothing
  is assumed.  \<open>exact_std\<close> is the standard deviation in exact arithmetic, the value
  \<open>np.std\<close> approximates; it instantiates the parameter at concrete inputs where the
  rounding does not change the branch taken.
\<close>

datatype error = ValueError | IndexError | ZeroDivisionError

definition np_mean :: "real list \<Rightarrow> real option" where
  "np_mean xs = (if xs = [] then None else Some (sum_list xs / real (length xs)))"

type_synonym std_fun = "real list \<Rightarrow> real option"

definition exact_std :: std_fun where
  "exact_std xs =
     (case np_mean xs of
        None \<Rightarrow> None
      | Some m \<Rightarrow>
          (case np_mean (map (\<lambda>x. \<bar>x - m\<bar> ^ 2) xs) of
             None \<Rightarrow> None
           | Some v \<Rightarrow> Some (sqrt v)))"

definition nan_less :: "real option \<Rightarrow> real \<Rightarrow> bool" where
  "nan_less a c = (case a of None \<Rightarrow> False | Some v \<Rightarrow> v < c)"

definition nan_greater :: "real option \<Rightarrow> real \<Rightarrow> bool" where
  "nan_greater a c = (case a of None \<Rightarrow> False | Some v \<Rightarrow> v > c)"

definition eps :: real where
  "eps = 1 / 10 ^ 10"

section \<open>The simplified decomposition (\<open>EMD._simple_emd\<close>, \<open>EMD._sift\<close>)\<close>

definition sift :: "real list \<Rightarrow> real list" where
  "sift signal = map (\<lambda>x. x * (1 / 10)) signal"

text \<open>
  The loop \<open>for i in range(10)\<close> with its two \<open>break\<close>s: the first argument counts
  the iterations that are left, the result is the pair \<open>(imfs, residue)\<close> at loop exit.
\<close>

fun emd_loop ::
  "std_fun \<Rightarrow> nat \<Rightarrow> real list list \<Rightarrow> real list \<Rightarrow> real list list \<times> real list" where
  "emd_loop np_std 0 imfs residue = (imfs, residue)"
| "emd_loop np_std (Suc k) imfs residue =
     (if length residue < 4 then (imfs, residue)
      else let imf = sift residue in
        if nan_less (np_std imf) eps then (imfs, residue)
        else emd_loop np_std k (imfs @ [imf]) (map2 (-) residue imf))"

definition simple_emd :: "std_fun \<Rightarrow> real list \<Rightarrow> real list list" where
  "simple_emd np_std signal =
     (case emd_loop np_std 10 [] signal of
        (imfs, residue) \<Rightarrow>
          if nan_greater (np_std residue) eps then imfs @ [residue] else imfs)"

text \<open>The values of \<open>imfs\<close> and \<open>residue\<close> when the loop of \<open>_simple_emd\<close> is left.\<close>

definition extracted_modes :: "std_fun \<Rightarrow> real list \<Rightarrow> real list list" where
  "extracted_modes np_std signal = fst (emd_loop np_std 10 [] signal)"

definition final_residue :: "std_fun \<Rightarrow> real list \<Rightarrow> real list" where
  "final_residue np_std signal = snd (emd_loop np_std 10 [] signal)"

text \<open>
  \<open>EMD.emd\<close> tries the external decomposition library first and falls back to
  \<open>_simple_emd\<close> when its import fails: the library is a parameter, \<open>None\<close> when it is
  not installed.
\<close>

definition emd ::
  "std_fun \<Rightarrow> (real list \<Rightarrow> real list list) option \<Rightarrow> real list \<Rightarrow> real list list" where
  "emd np_std pyemd signal =
     (case pyemd of Some f \<Rightarrow> f signal | None \<Rightarrow> simple_emd np_std signal)"

text \<open>Sample-by-sample sum of a collection of rows of length \<open>n\<close>.\<close>

definition sum_rows :: "nat \<Rightarrow> real list list \<Rightarrow> real list" where
  "sum_rows n rows = fold (\<lambda>row acc. map2 (+) acc row) rows (replicate n 0)"

section \<open>Spectral analysis (\<open>HilbertTransform\<close>)\<close>

text \<open>
  A two-dimensional array indexed \<open>[sample, mode]\<close> is kept as its number of samples
  and the list of its columns, one per mode.  \<open>np.array(rows).T\<close> of an empty list of
  rows is the one-dimensional empty array, whose shape has a single entry.
\<close>

datatype matrix = Empty1D | Mat2D nat "real list list"

definition np_array_T :: "real list list \<Rightarrow> error + matrix" where
  "np_array_T rows =
     (if rows = [] then Inr Empty1D
      else if \<forall>r \<in> set rows. length r = length (hd rows)
        then Inr (Mat2D (length (hd rows)) rows)
      else Inl ValueError)"

fun np_diff :: "real list \<Rightarrow> real list" where
  "np_diff (x # y # ys) = (y - x) # np_diff (y # ys)"
| "np_diff _ = []"

text \<open>
  A division whose denominator is zero is made visible as an error value (a Python float
  raises \<open>ZeroDivisionError\<close>; the array library would store \<open>inf\<close> or \<open>nan\<close>).
\<close>

definition checked_div :: "real \<Rightarrow> real \<Rightarrow> error + real" where
  "checked_div a b = (if b = 0 then Inl ZeroDivisionError else Inr (a / b))"

text \<open>
  The body of the loop of \<open>compute_instantaneous_frequency\<close> for one mode, from the
  amplitude \<open>np.abs(hilbert(imf))\<close> and the phase \<open>np.unwrap(np.angle(hilbert(imf)))\<close>.
\<close>

definition mode_frequency_amplitude ::
  "real \<Rightarrow> real list \<Rightarrow> real list \<Rightarrow> error + (real list \<times> real list)" where
  "mode_frequency_amplitude dt amplitude phase =
     (case checked_div 1 dt of
        Inl e \<Rightarrow> Inl e
      | Inr rate \<Rightarrow>
          let freq = map (\<lambda>d. rate * d / (2 * pi)) (np_diff phase) in
          if freq = [] then Inl IndexError
          else
            let freq = freq @ [last freq] in
            if length amplitude > length freq then Inr (freq, take (length freq) amplitude)
            else if length freq > length amplitude then Inr (take (length amplitude) freq, amplitude)
            else Inr (freq, amplitude))"

text \<open>
  The analytic signal comes from the external signal library: the parameter \<open>analytic\<close>
  gives, for one mode, its amplitude and its unwrapped phase, or the error the library raises.
\<close>

type_synonym analytic_signal = "real list \<Rightarrow> error + (real list \<times> real list)"

fun hilbert_loop ::
  "analytic_signal \<Rightarrow> real \<Rightarrow> real list list \<Rightarrow> error + (real list list \<times> real list list)" where
  "hilbert_loop analytic dt [] = Inr ([], [])"
| "hilbert_loop analytic dt (imf # rest) =
     (case analytic imf of
        Inl e \<Rightarrow> Inl e
      | Inr (amplitude, phase) \<Rightarrow>
          (case mode_frequency_amplitude dt amplitude phase of
             Inl e \<Rightarrow> Inl e
           | Inr (freq, amp) \<Rightarrow>
               (case hilbert_loop analytic dt rest of
                  Inl e \<Rightarrow> Inl e
                | Inr (fs, as) \<Rightarrow> Inr (freq # fs, amp # as))))"

definition compute_instantaneous_frequency ::
  "analytic_signal \<Rightarrow> real list list \<Rightarrow> real \<Rightarrow> error + (matrix \<times> matrix)" where
  "compute_instantaneous_frequency analytic imfs dt =
     (case hilbert_loop analytic dt (take (length imfs - 1) imfs) of
        Inl e \<Rightarrow> Inl e
      | Inr (fs, as) \<Rightarrow>
          (case np_array_T fs of
             Inl e \<Rightarrow> Inl e
           | Inr F \<Rightarrow>
               (case np_array_T as of
                  Inl e \<Rightarrow> Inl e
                | Inr A \<Rightarrow> Inr (F, A))))"

text \<open>Slices clamp to the array; an elementwise product broadcasts a one-element array.\<close>

definition py_slice :: "real list \<Rightarrow> nat \<Rightarrow> nat \<Rightarrow> real list" where
  "py_slice xs lo hi = take (hi - lo) (drop lo xs)"

definition np_mul :: "real list \<Rightarrow> real list \<Rightarrow> error + real list" where
  "np_mul xs ys =
     (if length xs = length ys then Inr (map2 (*) xs ys)
      else if length xs = 1 then Inr (map (\<lambda>y. hd xs * y) ys)
      else if length ys = 1 then Inr (map (\<lambda>x. x * hd ys) xs)
      else Inl ValueError)"

definition slice_column :: "matrix \<Rightarrow> nat \<Rightarrow> nat \<Rightarrow> nat \<Rightarrow> error + real list" where
  "slice_column M lo hi i =
     (case M of
        Empty1D \<Rightarrow> Inl IndexError
      | Mat2D n cols \<Rightarrow>
          if i < length cols then Inr (py_slice (cols ! i) lo hi) else Inl IndexError)"

text \<open>
  The inner loop of \<open>wafa_smoothing\<close> over the sample indices \<open>js\<close> of column \<open>i\<close>:
  \<open>freq\<close> is the column of \<open>frequencies\<close>, \<open>sm\<close> the column of \<open>smoothed_freq\<close>.
  The window size is a natural number.
\<close>

fun wafa_rows ::
  "nat \<Rightarrow> matrix \<Rightarrow> nat \<Rightarrow> real list \<Rightarrow> nat list \<Rightarrow> real list \<Rightarrow> error + real list" where
  "wafa_rows w2 A i freq [] sm = Inr sm"
| "wafa_rows w2 A i freq (j # js) sm =
     (case slice_column A (j - w2) (j + w2 + 1) i of
        Inl e \<Rightarrow> Inl e
      | Inr weights \<Rightarrow>
          let freqs = py_slice freq (j - w2) (j + w2 + 1) in
          if sum_list weights > 0 then
            (case np_mul weights freqs of
               Inl e \<Rightarrow> Inl e
             | Inr p \<Rightarrow>
                 (case checked_div (sum_list p) (sum_list weights) of
                    Inl e \<Rightarrow> Inl e
                  | Inr v \<Rightarrow> wafa_rows w2 A i freq js (sm[j := v])))
          else wafa_rows w2 A i freq js sm)"

fun wafa_cols ::
  "nat \<Rightarrow> matrix \<Rightarrow> nat \<Rightarrow> nat \<Rightarrow> real list list \<Rightarrow> error + real list list" where
  "wafa_cols w2 A n i [] = Inr []"
| "wafa_cols w2 A n i (freq # rest) =
     (case wafa_rows w2 A i freq [w2..<n - w2] freq of
        Inl e \<Rightarrow> Inl e
      | Inr sm \<Rightarrow>
          (case wafa_cols w2 A n (Suc i) rest of
             Inl e \<Rightarrow> Inl e
           | Inr sms \<Rightarrow> Inr (sm # sms)))"

definition wafa_smoothing :: "matrix \<Rightarrow> matrix \<Rightarrow> nat \<Rightarrow> error + matrix" where
  "wafa_smoothing frequencies amplitudes window =
     (case frequencies of
        Empty1D \<Rightarrow> Inl ValueError
      | Mat2D n cols \<Rightarrow>
          (case wafa_cols (window div 2) amplitudes n 0 cols of
             Inl e \<Rightarrow> Inl e
           | Inr cols' \<Rightarrow> Inr (Mat2D n cols')))"

text \<open>
  The quantities the smoothing is specified by: the total amplitude of the window centred
  at sample \<open>j\<close> (half-width \<open>w2\<close>), and the amplitude-weighted average frequency over it.
\<close>

definition window_weight :: "nat \<Rightarrow> real list \<Rightarrow> nat \<Rightarrow> real" where
  "window_weight w2 amp j = (\<Sum>k = j - w2..<j + w2 + 1. amp ! k)"

definition window_average :: "nat \<Rightarrow> real list \<Rightarrow> real list \<Rightarrow> nat \<Rightarrow> real" where
  "window_average w2 amp freq j =
     (\<Sum>k = j - w2..<j + w2 + 1. amp ! k * freq ! k) / window_weight w2 amp j"

section \<open>The analyzer (\<open>EMDAnalyzer\<close>)\<close>

text \<open>The statistics of one mode: mean frequency, mean period, mean amplitude.\<close>

definition mode_statistics ::
  "matrix \<Rightarrow> nat \<Rightarrow> real list \<Rightarrow> error + (real \<times> real \<times> real option)" where
  "mode_statistics A i freq =
     (case A of
        Empty1D \<Rightarrow> Inl IndexError
      | Mat2D n cols \<Rightarrow>
          if \<not> i < length cols then Inl IndexError
          else
            let amp = cols ! i in
            (case (if sum_list amp > 0
                   then (case np_mul amp freq of
                           Inl e \<Rightarrow> Inl e
                         | Inr p \<Rightarrow> checked_div (sum_list p) (sum_list amp))
                   else Inr 0) of
               Inl e \<Rightarrow> Inl e
             | Inr mean_freq \<Rightarrow>
                 (case (if mean_freq > 0 then checked_div 1 mean_freq else Inr 0) of
                    Inl e \<Rightarrow> Inl e
                  | Inr mean_period \<Rightarrow> Inr (mean_freq, mean_period, np_mean amp))))"

fun statistics_loop ::
  "matrix \<Rightarrow> nat \<Rightarrow> real list list \<Rightarrow> error + (real \<times> real \<times> real option) list" where
  "statistics_loop A i [] = Inr []"
| "statistics_loop A i (freq # rest) =
     (case mode_statistics A i freq of
        Inl e \<Rightarrow> Inl e
      | Inr t \<Rightarrow>
          (case statistics_loop A (Suc i) rest of
             Inl e \<Rightarrow> Inl e
           | Inr ts \<Rightarrow> Inr (t # ts)))"

record statistics =
  mean_frequencies :: "real list"
  mean_periods :: "real list"
  mean_amplitudes :: "real option list"

definition compute_statistics :: "real list list \<Rightarrow> matrix \<Rightarrow> matrix \<Rightarrow> error + statistics" where
  "compute_statistics imfs F A =
     (case F of
        Empty1D \<Rightarrow> Inl IndexError
      | Mat2D n cols \<Rightarrow>
          (case statistics_loop A 0 cols of
             Inl e \<Rightarrow> Inl e
           | Inr ts \<Rightarrow>
               Inr \<lparr>mean_frequencies = map fst ts,
                    mean_periods = map (\<lambda>t. fst (snd t)) ts,
                    mean_amplitudes = map (\<lambda>t. snd (snd t)) ts\<rparr>))"

text \<open>
  The result bundle, and the analyzer's cache \<open>self.results\<close>: a dictionary in insertion
  order, kept as an association list with one entry per key.
\<close>

record analysis_result =
  signal_name :: string
  original_signal :: "real list"
  imfs :: "real list list"
  n_imfs :: nat
  frequencies :: matrix
  amplitudes :: matrix
  statistics :: statistics
  dt :: real

record analyzer =
  results :: "(string \<times> analysis_result) list"

fun dict_set :: "string \<Rightarrow> analysis_result \<Rightarrow> (string \<times> analysis_result) list \<Rightarrow> (string \<times> analysis_result) list" where
  "dict_set k v [] = [(k, v)]"
| "dict_set k v ((k', v') # rest) =
     (if k' = k then (k', v) # rest else (k', v') # dict_set k v rest)"

definition EMDAnalyzer_init :: analyzer where
  "EMDAnalyzer_init = \<lparr>results = []\<rparr>"

definition analyze_signal ::
  "std_fun \<Rightarrow> (real list \<Rightarrow> real list list) option \<Rightarrow> analytic_signal \<Rightarrow> analyzer \<Rightarrow>
   real list \<Rightarrow> string \<Rightarrow> real \<Rightarrow> error + (analysis_result \<times> analyzer)" where
  "analyze_signal np_std pyemd analytic self signal name step =
     (let modes = emd np_std pyemd signal in
      case compute_instantaneous_frequency analytic modes step of
        Inl e \<Rightarrow> Inl e
      | Inr (freqs, amps) \<Rightarrow>
          (case wafa_smoothing freqs amps 30 of
             Inl e \<Rightarrow> Inl e
           | Inr smoothed_frequencies \<Rightarrow>
               (case compute_statistics modes smoothed_frequencies amps of
                  Inl e \<Rightarrow> Inl e
                | Inr stats \<Rightarrow>
                    let result = \<lparr>signal_name = name, original_signal = signal,
                                  imfs = modes, n_imfs = length modes,
                                  frequencies = smoothed_frequencies, amplitudes = amps,
                                  statistics = stats, dt = step\<rparr>
                    in Inr (result, self\<lparr>results := dict_set name result (results self)\<rparr>))))"

definition get_analysis_results :: "analyzer \<Rightarrow> string \<Rightarrow> analysis_result option" where
  "get_analysis_results self name = map_of (results self) name"

definition list_analyzed_signals :: "analyzer \<Rightarrow> string list" where
  "list_analyzed_signals self = map fst (results self)"

text \<open>
  A sequence of \<open>analyze_signal\<close> calls on one analyzer; a call that raises leaves the
  cache as it was.
\<close>

fun analyze_all ::
  "std_fun \<Rightarrow> (real list \<Rightarrow> real list list) option \<Rightarrow> analytic_signal \<Rightarrow> analyzer \<Rightarrow>
   (real list \<times> string \<times> real) list \<Rightarrow> analyzer" where
  "analyze_all np_std pyemd analytic self [] = self"
| "analyze_all np_std pyemd analytic self ((signal, name, step) # calls) =
     (case analyze_signal np_std pyemd analytic self signal name step of
        Inl e \<Rightarrow> analyze_all np_std pyemd analytic self calls
      | Inr (result, self') \<Rightarrow> analyze_all np_std pyemd analytic self' calls)"

section \<open>Facts about the standard deviation in exact arithmetic\<close>

lemma exact_std_Nil: "exact_std [] = None"
  by (simp add: exact_std_def np_mean_def)

lemma exact_std_Some:
  "xs \<noteq> [] \<Longrightarrow>
   exact_std xs = Some (sqrt (sum_list (map (\<lambda>x. \<bar>x - sum_list xs / real (length xs)\<bar> ^ 2) xs)
                            / real (length xs)))"
  by (simp add: exact_std_def np_mean_def)

lemma exact_std_replicate: "0 < n \<Longrightarrow> exact_std (replicate n v) = Some 0"
proof -
  assume n: "0 < n"
  have m: "sum_list (replicate n v) / real n = v"
    using n by (simp add: sum_list_replicate)
  have "map (\<lambda>x. \<bar>x - v\<bar> ^ 2) (replicate n v) = replicate n 0"
    by simp
  then show ?thesis
    using n by (simp add: exact_std_Some m sum_list_replicate)
qed

lemma sift_replicate: "sift (replicate n v) = replicate n (v * (1 / 10))"
  by (simp add: sift_def)

lemma eps_pos: "0 < eps"
  by (simp add: eps_def)

lemma simple_emd_replicate: "simple_emd exact_std (replicate n v) = []"
proof (cases "n = 0")
  case True
  then show ?thesis
    by (simp add: simple_emd_def numeral_eq_Suc exact_std_Nil nan_greater_def)
next
  case False
  then have n: "0 < n" by simp
  have loop: "emd_loop exact_std 10 [] (replicate n v) = ([], replicate n v)"
    using n eps_pos
    by (simp add: numeral_eq_Suc sift_replicate exact_std_replicate nan_less_def)
  show ?thesis
    using n eps_pos by (simp add: simple_emd_def loop exact_std_replicate nan_greater_def)
qed

lemma emd_loop_short: "length r < 4 \<Longrightarrow> emd_loop std k acc r = (acc, r)"
  by (cases k) simp_all

lemma residue_step: "map2 (-) r (sift r) = map (\<lambda>x. (9 / 10) * x) r"
  by (induction r) (simp_all add: sift_def)

lemma sum_list_scale_sq:
  fixes c m :: real
  shows "sum_list (map (\<lambda>x. (c * x - c * m) ^ 2) xs) = c ^ 2 * sum_list (map (\<lambda>x. (x - m) ^ 2) xs)"
  by (induction xs) (simp_all add: algebra_simps power2_eq_square)

lemma exact_std_scale:
  assumes "0 \<le> c"
  shows "exact_std (map (\<lambda>x. c * x) xs) = map_option (\<lambda>s. c * s) (exact_std xs)"
proof (cases "xs = []")
  case True
  then show ?thesis by (simp add: exact_std_Nil)
next
  case False
  define m where "m = sum_list xs / real (length xs)"
  define v where "v = sum_list (map (\<lambda>x. (x - m) ^ 2) xs) / real (length xs)"
  have mean: "sum_list (map (\<lambda>x. c * x) xs) / real (length xs) = c * m"
    by (simp add: sum_list_const_mult m_def)
  have "exact_std (map (\<lambda>x. c * x) xs)
      = Some (sqrt (sum_list (map (\<lambda>x. (c * x - c * m) ^ 2) xs) / real (length xs)))"
    using False by (simp add: exact_std_Some mean o_def)
  also have "\<dots> = Some (sqrt (c ^ 2 * v))"
    by (simp add: sum_list_scale_sq v_def)
  also have "\<dots> = Some (c * sqrt v)"
    using assms by (simp add: real_sqrt_mult)
  also have "\<dots> = map_option (\<lambda>s. c * s) (exact_std xs)"
    using False by (simp add: exact_std_Some m_def v_def)
  finally show ?thesis .
qed

lemma exact_std_sift: "exact_std (sift r) = map_option (\<lambda>s. (1 / 10) * s) (exact_std r)"
proof -
  have "sift r = map (\<lambda>x. (1 / 10) * x) r"
    by (simp add: sift_def)
  then show ?thesis
    using exact_std_scale [of "1 / 10" r] by simp
qed

lemma exact_std_residue_step:
  "exact_std (map2 (-) r (sift r)) = map_option (\<lambda>s. (9 / 10) * s) (exact_std r)"
  using exact_std_scale [of "9 / 10" r] by (simp add: residue_step)

lemma exact_std_nonneg: "exact_std xs = Some s \<Longrightarrow> 0 \<le> s"
  by (cases "xs = []") (auto simp: exact_std_Nil exact_std_Some intro!: sum_list_nonneg divide_nonneg_nonneg)

lemma sum_rows_snoc:
  "sum_rows n (rows @ [r]) = map2 (+) (sum_rows n rows) r"
  by (simp add: sum_rows_def)

lemma length_sum_rows:
  "\<forall>r \<in> set rows. length r = n \<Longrightarrow> length (sum_rows n rows) = n"
  by (induction rows rule: rev_induct) (simp_all add: sum_rows_def)

lemma map2_add_residue_step:
  "length acc = length r \<Longrightarrow>
   map2 (+) (map2 (+) acc (sift r)) (map2 (-) r (sift r)) = map2 (+) acc r"
  by (induction acc r rule: list_induct2) (simp_all add: sift_def)

text \<open>The loop keeps: rows of equal length, modes plus residue equal to the signal, and a
  residue whose standard deviation stays above the threshold once it is above it.\<close>

lemma emd_loop_invariant:
  assumes "emd_loop exact_std k acc r = (acc', r')"
    and "\<forall>x \<in> set acc. length x = length r"
  shows "length r' = length r \<and> (\<forall>x \<in> set acc'. length x = length r)
    \<and> map2 (+) (sum_rows (length r) acc') r' = map2 (+) (sum_rows (length r) acc) r
    \<and> (nan_greater (exact_std r) eps \<longrightarrow> nan_greater (exact_std r') eps)"
  using assms
proof (induction k arbitrary: acc r)
  case 0
  then show ?case by simp
next
  case (Suc k)
  show ?case
  proof (cases "length r < 4 \<or> nan_less (exact_std (sift r)) eps")
    case True
    then have "emd_loop exact_std (Suc k) acc r = (acc, r)" by auto
    with Suc.prems show ?thesis by simp
  next
    case False
    then have step: "emd_loop exact_std k (acc @ [sift r]) (map2 (-) r (sift r)) = (acc', r')"
      using Suc.prems(1) by (simp add: Let_def)
    have len: "length (map2 (-) r (sift r)) = length r"
      by (simp add: sift_def)
    have lens: "\<forall>x \<in> set (acc @ [sift r]). length x = length (map2 (-) r (sift r))"
      using Suc.prems(2) by (simp add: sift_def)
    note ih = Suc.IH [OF step lens, unfolded len]
    have la: "length (sum_rows (length r) acc) = length r"
      using Suc.prems(2) by (rule length_sum_rows)
    have sum: "map2 (+) (sum_rows (length r) (acc @ [sift r])) (map2 (-) r (sift r))
        = map2 (+) (sum_rows (length r) acc) r"
      by (simp only: sum_rows_snoc map2_add_residue_step [OF la])
    have std: "nan_greater (exact_std r) eps \<longrightarrow> nan_greater (exact_std (map2 (-) r (sift r))) eps"
    proof
      assume "nan_greater (exact_std r) eps"
      then obtain s where s: "exact_std r = Some s" "eps < s"
        by (auto simp: nan_greater_def split: option.splits)
      from False have "\<not> nan_less (exact_std (sift r)) eps" by simp
      then have "eps \<le> (1 / 10) * s"
        using s by (simp add: exact_std_sift nan_less_def)
      then have "eps < (9 / 10) * s"
        using eps_pos by simp
      then show "nan_greater (exact_std (map2 (-) r (sift r))) eps"
        using s by (simp add: exact_std_residue_step nan_greater_def)
    qed
    show ?thesis
      using ih sum std by simp
  qed
qed



lemma simple_emd_short:
  "length signal < 4 \<Longrightarrow>
   simple_emd std signal = (if nan_greater (std signal) eps then [signal] else [])"
  by (simp add: simple_emd_def emd_loop_short)

lemma nan_greater_exact_std:
  "0 \<le> c \<Longrightarrow> nan_greater (exact_std xs) c \<longleftrightarrow>
     xs \<noteq> [] \<and> c ^ 2 < sum_list (map (\<lambda>x. (x - sum_list xs / real (length xs)) ^ 2) xs) / real (length xs)"
proof (cases "xs = []")
  case True
  then show ?thesis by (simp add: exact_std_Nil nan_greater_def)
next
  case False
  assume c: "0 \<le> c"
  have "c < sqrt v \<longleftrightarrow> c ^ 2 < v" for v
    using c real_less_rsqrt [of c v] real_sqrt_less_iff [of "c ^ 2" v] by auto
  then show ?thesis
    using False by (simp add: exact_std_Some nan_greater_def)
qed

lemma nan_less_exact_std:
  "0 < c \<Longrightarrow> nan_less (exact_std xs) c \<longleftrightarrow>
     xs \<noteq> [] \<and> sum_list (map (\<lambda>x. (x - sum_list xs / real (length xs)) ^ 2) xs) / real (length xs) < c ^ 2"
proof (cases "xs = []")
  case True
  then show ?thesis by (simp add: exact_std_Nil nan_less_def)
next
  case False
  assume c: "0 < c"
  have "sqrt v < c \<longleftrightarrow> v < c ^ 2" for v
    using c real_sqrt_less_iff [of v "c ^ 2"] by auto
  then show ?thesis
    using False by (simp add: exact_std_Some nan_less_def)
qed


section \<open>Facts about the cache and the failing analysis\<close>

lemma map_of_dict_set: "map_of (dict_set k v d) k = Some v"
  by (induction d) auto

lemma keys_dict_set_order:
  "map fst (dict_set k v d) = (if k \<in> set (map fst d) then map fst d else map fst d @ [k])"
proof (induction d)
  case Nil
  then show ?case by simp
next
  case (Cons p d)
  have mem: "(k, b) \<in> set d \<Longrightarrow> k \<in> fst ` set d" for b
    by force
  show ?case
    using Cons mem by (cases p) auto
qed

lemma keys_dict_set: "fst ` set (dict_set k v d) = insert k (fst ` set d)"
proof -
  have "set (map fst (dict_set k v d)) = insert k (set (map fst d))"
    by (simp only: keys_dict_set_order) auto
  then show ?thesis by simp
qed

lemma analyze_signal_cached:
  assumes "analyze_signal std pyemd analytic self signal name step = Inr (result, self')"
  shows "results self' = dict_set name result (results self)"
  using assms
  by (auto simp: analyze_signal_def Let_def split: sum.splits prod.splits)

lemma analyze_signal_keys:
  assumes "analyze_signal std pyemd analytic self signal name step = Inr (result, self')"
  shows "set (list_analyzed_signals self') = insert name (set (list_analyzed_signals self))"
  using analyze_signal_cached [OF assms]
  by (simp add: list_analyzed_signals_def keys_dict_set)

lemma analyze_all_keys:
  "set (list_analyzed_signals (analyze_all std pyemd analytic self calls))
     \<subseteq> set (list_analyzed_signals self) \<union> set (map (\<lambda>c. fst (snd c)) calls)"
proof (induction calls arbitrary: self)
  case Nil
  then show ?case by simp
next
  case (Cons c calls)
  obtain signal name step where c: "c = (signal, name, step)"
    by (cases c)
  show ?case
  proof (cases "analyze_signal std pyemd analytic self signal name step")
    case (Inl e)
    then show ?thesis
      using Cons.IH [of self] by (auto simp: c)
  next
    case (Inr p)
    obtain result self' where p: "p = (result, self')" by (cases p)
    have "set (list_analyzed_signals self') = insert name (set (list_analyzed_signals self))"
      using Inr unfolding p by (rule analyze_signal_keys)
    then show ?thesis
      using Cons.IH [of self'] Inr by (auto simp: c p)
  qed
qed

lemma get_analysis_results_None:
  "name \<notin> set (list_analyzed_signals self) \<Longrightarrow> get_analysis_results self name = None"
  by (simp add: get_analysis_results_def list_analyzed_signals_def map_of_eq_None_iff)

lemma analyze_signal_few_rows:
  assumes "length (emd std pyemd signal) \<le> 1"
  shows "analyze_signal std pyemd analytic self signal name step = Inl ValueError"
proof -
  have none: "take (length (emd std pyemd signal) - 1) (emd std pyemd signal) = []"
    using assms by simp
  have "compute_instantaneous_frequency analytic (emd std pyemd signal) step = Inr (Empty1D, Empty1D)"
    by (simp only: compute_instantaneous_frequency_def none) (simp add: np_array_T_def)
  then show ?thesis
    by (simp add: analyze_signal_def wafa_smoothing_def)
qed

section \<open>Facts about the statistics\<close>

lemma np_mul_same_length: "length xs = length ys \<Longrightarrow> np_mul xs ys = Inr (map2 (*) xs ys)"
  by (simp add: np_mul_def)

lemma checked_div_ok: "b \<noteq> 0 \<Longrightarrow> checked_div a b = Inr (a / b)"
  by (simp add: checked_div_def)

lemma np_mul_not_div: "np_mul xs ys \<noteq> Inl ZeroDivisionError"
  by (simp add: np_mul_def)

lemma mode_statistics_value:
  assumes "i < length acols" "length (acols ! i) = length freq"
  shows "mode_statistics (Mat2D m acols) i freq =
    Inr (let mf = (if sum_list (acols ! i) > 0
                   then sum_list (map2 (*) (acols ! i) freq) / sum_list (acols ! i) else 0)
         in (mf, (if mf > 0 then 1 / mf else 0), np_mean (acols ! i)))"
  using assms
  by (simp add: mode_statistics_def Let_def np_mul_same_length checked_div_def)

lemma mode_statistics_not_div: "mode_statistics A i freq \<noteq> Inl ZeroDivisionError"
  by (auto simp: mode_statistics_def Let_def checked_div_def np_mul_def
      split: matrix.splits sum.splits if_splits)

lemma statistics_loop_not_div: "statistics_loop A i cols \<noteq> Inl ZeroDivisionError"
proof (induction cols arbitrary: i)
  case Nil
  then show ?case by simp
next
  case (Cons c cols)
  show ?case
    using mode_statistics_not_div [of A i c] Cons [of "Suc i"]
    by (auto split: sum.splits)
qed

lemma compute_statistics_not_div: "compute_statistics rows F A \<noteq> Inl ZeroDivisionError"
  using statistics_loop_not_div
  by (auto simp: compute_statistics_def split: matrix.splits sum.splits)

lemma statistics_loop_value:
  assumes "i + length cols \<le> length acols"
    and "\<forall>k < length cols. length (acols ! (i + k)) = length (cols ! k)"
  shows "\<exists>ts. statistics_loop (Mat2D m acols) i cols = Inr ts \<and> length ts = length cols \<and>
    (\<forall>k < length cols. mode_statistics (Mat2D m acols) (i + k) (cols ! k) = Inr (ts ! k))"
  using assms
proof (induction cols arbitrary: i)
  case Nil
  then show ?case by simp
next
  case (Cons c cols)
  have i: "i < length acols" and len: "length (acols ! i) = length c"
    using Cons.prems by auto
  obtain t where t: "mode_statistics (Mat2D m acols) i c = Inr t"
    using mode_statistics_value [OF i len] by simp
  have "Suc i + length cols \<le> length acols"
    using Cons.prems(1) by simp
  moreover have "\<forall>k < length cols. length (acols ! (Suc i + k)) = length (cols ! k)"
    using Cons.prems(2) by auto
  ultimately obtain ts where ts: "statistics_loop (Mat2D m acols) (Suc i) cols = Inr ts"
    "length ts = length cols"
    "\<forall>k < length cols. mode_statistics (Mat2D m acols) (Suc i + k) (cols ! k) = Inr (ts ! k)"
    using Cons.IH [of "Suc i"] by blast
  have "\<forall>k < length (c # cols). mode_statistics (Mat2D m acols) (i + k) ((c # cols) ! k) = Inr ((t # ts) ! k)"
  proof (intro allI impI)
    fix k assume "k < length (c # cols)"
    then show "mode_statistics (Mat2D m acols) (i + k) ((c # cols) ! k) = Inr ((t # ts) ! k)"
      using t ts(3) by (cases k) auto
  qed
  then show ?case
    using t ts(1,2) by simp
qed

lemma compute_statistics_value:
  assumes "length acols = length fcols"
    and "\<forall>i < length fcols. length (acols ! i) = length (fcols ! i)"
  shows "\<exists>st. compute_statistics rows (Mat2D n fcols) (Mat2D m acols) = Inr st \<and>
    length (mean_frequencies st) = length fcols \<and>
    length (mean_periods st) = length fcols \<and>
    length (mean_amplitudes st) = length fcols \<and>
    (\<forall>i < length fcols.
       mean_frequencies st ! i =
         (if sum_list (acols ! i) > 0
          then sum_list (map2 (*) (acols ! i) (fcols ! i)) / sum_list (acols ! i) else 0) \<and>
       mean_periods st ! i =
         (if mean_frequencies st ! i > 0 then 1 / mean_frequencies st ! i else 0) \<and>
       mean_amplitudes st ! i = np_mean (acols ! i))"
proof -
  have "0 + length fcols \<le> length acols"
    using assms(1) by simp
  moreover have "\<forall>k < length fcols. length (acols ! (0 + k)) = length (fcols ! k)"
    using assms(2) by simp
  ultimately obtain ts where ts: "statistics_loop (Mat2D m acols) 0 fcols = Inr ts"
    "length ts = length fcols"
    "\<forall>k < length fcols. mode_statistics (Mat2D m acols) (0 + k) (fcols ! k) = Inr (ts ! k)"
    using statistics_loop_value [of 0 fcols acols m] by blast
  have each: "ts ! i = (let mf = (if sum_list (acols ! i) > 0
                   then sum_list (map2 (*) (acols ! i) (fcols ! i)) / sum_list (acols ! i) else 0)
         in (mf, (if mf > 0 then 1 / mf else 0), np_mean (acols ! i)))"
    if "i < length fcols" for i
  proof -
    have "i < length acols" "length (acols ! i) = length (fcols ! i)"
      using that assms by auto
    from mode_statistics_value [OF this, of m] ts(3) that show ?thesis
      by simp
  qed
  show ?thesis
    using ts(1,2) each
    by (simp add: compute_statistics_def Let_def)
qed

section \<open>Facts about the smoothing\<close>

lemma length_np_diff: "length (np_diff xs) = length xs - 1"
  by (induction xs rule: np_diff.induct) simp_all

lemma nth_np_diff: "Suc k < length xs \<Longrightarrow> np_diff xs ! k = xs ! Suc k - xs ! k"
proof (induction xs arbitrary: k rule: np_diff.induct)
  case (1 x y ys)
  then show ?case by (cases k) simp_all
qed simp_all

lemma sum_list_py_slice:
  assumes "hi \<le> length xs"
  shows "sum_list (py_slice xs lo hi) = (\<Sum>k = lo..<hi. xs ! k)"
proof (cases "lo \<le> hi")
  case False
  then show ?thesis by (simp add: py_slice_def)
next
  case True
  have len: "length (py_slice xs lo hi) = hi - lo"
    using assms by (simp add: py_slice_def)
  have "sum_list (py_slice xs lo hi) = (\<Sum>i = 0..<hi - lo. py_slice xs lo hi ! i)"
    by (simp add: sum_list_sum_nth len)
  also have "\<dots> = (\<Sum>i = 0..<hi - lo. xs ! (i + lo))"
    using assms by (intro sum.cong) (simp_all add: py_slice_def add.commute)
  also have "\<dots> = (\<Sum>k = 0 + lo..<(hi - lo) + lo. xs ! k)"
    by (simp only: sum.shift_bounds_nat_ivl)
  finally show ?thesis
    using True by simp
qed

lemma py_slice_map2:
  "map2 (*) (py_slice a lo hi) (py_slice f lo hi) = py_slice (map2 (*) a f) lo hi"
  by (simp add: py_slice_def take_zip drop_zip take_map drop_map)

lemma sum_list_py_slice_map2:
  assumes "hi \<le> length a" "hi \<le> length f"
  shows "sum_list (map2 (*) (py_slice a lo hi) (py_slice f lo hi)) = (\<Sum>k = lo..<hi. a ! k * f ! k)"
proof -
  have "sum_list (py_slice (map2 (*) a f) lo hi) = (\<Sum>k = lo..<hi. map2 (*) a f ! k)"
    using assms by (intro sum_list_py_slice) simp
  also have "\<dots> = (\<Sum>k = lo..<hi. a ! k * f ! k)"
    using assms by (intro sum.cong) simp_all
  finally show ?thesis by (simp add: py_slice_map2)
qed

lemma wafa_rows_value:
  assumes "i < length acols" "length (acols ! i) = n" "length freq = n" "length sm = n"
    and "\<forall>j \<in> set js. j + w2 < n"
  shows "\<exists>sm'. wafa_rows w2 (Mat2D m acols) i freq js sm = Inr sm' \<and> length sm' = n \<and>
    (\<forall>k < n. sm' ! k =
       (if k \<in> set js \<and> window_weight w2 (acols ! i) k > 0
        then window_average w2 (acols ! i) freq k else sm ! k))"
  using assms(4,5)
proof (induction js arbitrary: sm)
  case Nil
  then show ?case by simp
next
  case (Cons j js)
  have hi: "j + w2 + 1 \<le> n"
    using Cons.prems(2) by simp
  have slice: "slice_column (Mat2D m acols) (j - w2) (j + w2 + 1) i
      = Inr (py_slice (acols ! i) (j - w2) (j + w2 + 1))"
    using assms(1) by (simp add: slice_column_def)
  have weight: "sum_list (py_slice (acols ! i) (j - w2) (j + w2 + 1)) = window_weight w2 (acols ! i) j"
    using hi assms(2) by (simp add: sum_list_py_slice window_weight_def)
  have lens: "length (py_slice (acols ! i) (j - w2) (j + w2 + 1))
      = length (py_slice freq (j - w2) (j + w2 + 1))"
    using assms(2,3) by (simp add: py_slice_def)
  have prod: "sum_list (map2 (*) (py_slice (acols ! i) (j - w2) (j + w2 + 1))
        (py_slice freq (j - w2) (j + w2 + 1))) / window_weight w2 (acols ! i) j
      = window_average w2 (acols ! i) freq j"
    using hi assms(2,3) by (simp add: sum_list_py_slice_map2 window_average_def)
  have rest: "\<forall>j \<in> set js. j + w2 < n"
    using Cons.prems(2) by simp
  show ?case
  proof (cases "window_weight w2 (acols ! i) j > 0")
    case True
    let ?sm = "sm[j := window_average w2 (acols ! i) freq j]"
    have quot: "checked_div (sum_list (map2 (*) (py_slice (acols ! i) (j - w2) (j + w2 + 1))
          (py_slice freq (j - w2) (j + w2 + 1)))) (window_weight w2 (acols ! i) j)
        = Inr (window_average w2 (acols ! i) freq j)"
      using True prod by (simp add: checked_div_def)
    have step: "wafa_rows w2 (Mat2D m acols) i freq (j # js) sm
        = wafa_rows w2 (Mat2D m acols) i freq js ?sm"
      by (simp only: wafa_rows.simps slice sum.case Let_def weight True if_True
          np_mul_same_length [OF lens] quot)
    have "length ?sm = n"
      using Cons.prems(1) by simp
    from Cons.IH [OF this rest] obtain sm' where sm':
      "wafa_rows w2 (Mat2D m acols) i freq js ?sm = Inr sm'" "length sm' = n"
      "\<forall>k < n. sm' ! k = (if k \<in> set js \<and> window_weight w2 (acols ! i) k > 0
        then window_average w2 (acols ! i) freq k else ?sm ! k)"
      by blast
    have "\<forall>k < n. sm' ! k = (if k \<in> set (j # js) \<and> window_weight w2 (acols ! i) k > 0
        then window_average w2 (acols ! i) freq k else sm ! k)"
    proof (intro allI impI)
      fix k assume k: "k < n"
      show "sm' ! k = (if k \<in> set (j # js) \<and> window_weight w2 (acols ! i) k > 0
        then window_average w2 (acols ! i) freq k else sm ! k)"
      proof (cases "k = j")
        case True
        with \<open>window_weight w2 (acols ! i) j > 0\<close> k sm'(3) Cons.prems(1) show ?thesis
          by simp
      next
        case False
        with k sm'(3) show ?thesis by simp
      qed
    qed
    then show ?thesis
      using step sm'(1,2) by simp
  next
    case False
    have step: "wafa_rows w2 (Mat2D m acols) i freq (j # js) sm
        = wafa_rows w2 (Mat2D m acols) i freq js sm"
      by (simp only: wafa_rows.simps slice sum.case Let_def weight False if_False)
    from Cons.IH [OF Cons.prems(1) rest] obtain sm' where sm':
      "wafa_rows w2 (Mat2D m acols) i freq js sm = Inr sm'" "length sm' = n"
      "\<forall>k < n. sm' ! k = (if k \<in> set js \<and> window_weight w2 (acols ! i) k > 0
        then window_average w2 (acols ! i) freq k else sm ! k)"
      by blast
    have "\<forall>k < n. sm' ! k = (if k \<in> set (j # js) \<and> window_weight w2 (acols ! i) k > 0
        then window_average w2 (acols ! i) freq k else sm ! k)"
      using sm'(3) False by auto
    then show ?thesis
      using step sm'(1,2) by simp
  qed
qed

lemma wafa_column_value:
  assumes "i < length acols" "length (acols ! i) = n" "length freq = n"
  shows "\<exists>sm. wafa_rows w2 (Mat2D m acols) i freq [w2..<n - w2] freq = Inr sm \<and> length sm = n \<and>
    (\<forall>j < n. sm ! j =
       (if w2 \<le> j \<and> j < n - w2 \<and> window_weight w2 (acols ! i) j > 0
        then window_average w2 (acols ! i) freq j else freq ! j))"
proof -
  have "\<forall>j \<in> set [w2..<n - w2]. j + w2 < n"
    by auto
  from wafa_rows_value [OF assms(1,2,3) assms(3) this, of m] show ?thesis
    by simp
qed

lemma wafa_cols_value:
  assumes "i + length cols \<le> length acols"
    and "\<forall>k < length cols. length (cols ! k) = n \<and> length (acols ! (i + k)) = n"
  shows "\<exists>sms. wafa_cols w2 (Mat2D m acols) n i cols = Inr sms \<and> length sms = length cols \<and>
    (\<forall>k < length cols. length (sms ! k) = n \<and>
       (\<forall>j < n. sms ! k ! j =
         (if w2 \<le> j \<and> j < n - w2 \<and> window_weight w2 (acols ! (i + k)) j > 0
          then window_average w2 (acols ! (i + k)) (cols ! k) j else cols ! k ! j)))"
  using assms
proof (induction cols arbitrary: i)
  case Nil
  then show ?case by simp
next
  case (Cons c cols)
  have i: "i < length acols" and la: "length (acols ! i) = n" and lc: "length c = n"
    using Cons.prems by auto
  from wafa_column_value [OF i la lc, of w2 m] obtain sm where sm:
    "wafa_rows w2 (Mat2D m acols) i c [w2..<n - w2] c = Inr sm" "length sm = n"
    "\<forall>j < n. sm ! j = (if w2 \<le> j \<and> j < n - w2 \<and> window_weight w2 (acols ! i) j > 0
        then window_average w2 (acols ! i) c j else c ! j)"
    by blast
  have "Suc i + length cols \<le> length acols"
    using Cons.prems(1) by simp
  moreover have "\<forall>k < length cols. length (cols ! k) = n \<and> length (acols ! (Suc i + k)) = n"
    using Cons.prems(2) by auto
  ultimately obtain sms where sms:
    "wafa_cols w2 (Mat2D m acols) n (Suc i) cols = Inr sms" "length sms = length cols"
    "\<forall>k < length cols. length (sms ! k) = n \<and>
       (\<forall>j < n. sms ! k ! j =
         (if w2 \<le> j \<and> j < n - w2 \<and> window_weight w2 (acols ! (Suc i + k)) j > 0
          then window_average w2 (acols ! (Suc i + k)) (cols ! k) j else cols ! k ! j))"
    using Cons.IH [of "Suc i"] by blast
  have "\<forall>k < length (c # cols). length ((sm # sms) ! k) = n \<and>
       (\<forall>j < n. (sm # sms) ! k ! j =
         (if w2 \<le> j \<and> j < n - w2 \<and> window_weight w2 (acols ! (i + k)) j > 0
          then window_average w2 (acols ! (i + k)) ((c # cols) ! k) j else (c # cols) ! k ! j))"
  proof (intro allI impI)
    fix k assume "k < length (c # cols)"
    then show "length ((sm # sms) ! k) = n \<and>
       (\<forall>j < n. (sm # sms) ! k ! j =
         (if w2 \<le> j \<and> j < n - w2 \<and> window_weight w2 (acols ! (i + k)) j > 0
          then window_average w2 (acols ! (i + k)) ((c # cols) ! k) j else (c # cols) ! k ! j))"
      using sm(2,3) sms(3) by (cases k) simp_all
  qed
  then show ?case
    using sm(1) sms(1,2) by simp
qed

lemma wafa_smoothing_value:
  assumes "length acols = length fcols"
    and "\<forall>i < length fcols. length (fcols ! i) = n \<and> length (acols ! i) = n"
  shows "\<exists>scols. wafa_smoothing (Mat2D n fcols) (Mat2D m acols) window = Inr (Mat2D n scols) \<and>
    length scols = length fcols \<and>
    (\<forall>i < length fcols. length (scols ! i) = n \<and>
       (\<forall>j < n. scols ! i ! j =
         (if window div 2 \<le> j \<and> j < n - window div 2
               \<and> window_weight (window div 2) (acols ! i) j > 0
          then window_average (window div 2) (acols ! i) (fcols ! i) j else fcols ! i ! j)))"
proof -
  have "0 + length fcols \<le> length acols"
    using assms(1) by simp
  moreover have "\<forall>k < length fcols. length (fcols ! k) = n \<and> length (acols ! (0 + k)) = n"
    using assms(2) by simp
  ultimately obtain sms where
    "wafa_cols (window div 2) (Mat2D m acols) n 0 fcols = Inr sms" "length sms = length fcols"
    "\<forall>k < length fcols. length (sms ! k) = n \<and>
       (\<forall>j < n. sms ! k ! j =
         (if window div 2 \<le> j \<and> j < n - window div 2
               \<and> window_weight (window div 2) (acols ! (0 + k)) j > 0
          then window_average (window div 2) (acols ! (0 + k)) (fcols ! k) j else fcols ! k ! j))"
    using wafa_cols_value [of 0 fcols acols n "window div 2" m] by blast
  then show ?thesis
    by (simp add: wafa_smoothing_def)
qed

section \<open>Facts about the instantaneous frequency and the whole analysis\<close>

lemma mode_frequency_amplitude_padded:
  assumes "step \<noteq> 0" "2 \<le> length phase"
  defines "padded \<equiv> map (\<lambda>k. (1 / step) * (phase ! min (k + 1) (length phase - 1)
                        - phase ! min k (length phase - 2)) / (2 * pi)) [0..<length phase]"
  shows "mode_frequency_amplitude step amplitude phase
    = Inr (take (length amplitude) padded, take (length phase) amplitude)"
proof -
  define f where "f = (\<lambda>d. (1 / step) * d / (2 * pi))"
  define freq where "freq = map f (np_diff phase)"
  have len: "length freq = length phase - 1"
    by (simp add: freq_def length_np_diff)
  have ne: "freq \<noteq> []"
  proof
    assume "freq = []"
    then have "length freq = 0" by simp
    with len assms(2) show False by simp
  qed
  have lp: "length padded = length phase"
    by (simp add: padded_def)
  have nth_freq: "freq ! k = f (phase ! Suc k - phase ! k)" if "Suc k < length phase" for k
  proof -
    have "k < length (np_diff phase)"
      using that by (simp add: length_np_diff)
    then have "freq ! k = f (np_diff phase ! k)"
      by (simp add: freq_def)
    then show ?thesis
      using that by (simp add: nth_np_diff)
  qed
  have nth_padded: "padded ! k = f (phase ! min (k + 1) (length phase - 1)
      - phase ! min k (length phase - 2))" if "k < length phase" for k
    using that by (simp add: padded_def f_def)
  have eq: "freq @ [last freq] = padded"
  proof (rule nth_equalityI)
    show "length (freq @ [last freq]) = length padded"
      using assms(2) len lp by simp
  next
    fix k assume "k < length (freq @ [last freq])"
    then have k: "k < length phase"
      using assms(2) len by simp
    show "(freq @ [last freq]) ! k = padded ! k"
    proof (cases "Suc k < length phase")
      case True
      then have "k < length freq" using len by simp
      then have "(freq @ [last freq]) ! k = freq ! k"
        by (simp add: nth_append)
      also have "\<dots> = f (phase ! Suc k - phase ! k)"
        using True by (rule nth_freq)
      also have "\<dots> = padded ! k"
      proof -
        have "min (k + 1) (length phase - 1) = Suc k" "min k (length phase - 2) = k"
          using True by simp_all
        then show ?thesis
          using nth_padded [OF k] by simp
      qed
      finally show ?thesis .
    next
      case False
      then have kn: "k = length phase - 1" using k by simp
      then have kl: "k = length freq" using len by simp
      have two: "Suc (length phase - 2) < length phase"
        using assms(2) by simp
      have "(freq @ [last freq]) ! k = last freq"
        using kl by (simp add: nth_append)
      also have "\<dots> = freq ! (length freq - 1)"
        using ne by (rule last_conv_nth)
      also have "length freq - 1 = length phase - 2"
        using len by simp
      also have "freq ! (length phase - 2)
          = f (phase ! Suc (length phase - 2) - phase ! (length phase - 2))"
        using two by (rule nth_freq)
      also have "\<dots> = padded ! k"
      proof -
        have "min (k + 1) (length phase - 1) = Suc (length phase - 2)"
          "min k (length phase - 2) = length phase - 2"
          using kn assms(2) by simp_all
        then show ?thesis
          using nth_padded [OF k] by simp
      qed
      finally show ?thesis .
    qed
  qed
  have cd: "checked_div 1 step = Inr (1 / step)"
    using assms(1) by (simp add: checked_div_def)
  have unfold: "mode_frequency_amplitude step amplitude phase =
      (if length amplitude > length padded then Inr (padded, take (length padded) amplitude)
       else if length padded > length amplitude then Inr (take (length amplitude) padded, amplitude)
       else Inr (padded, amplitude))"
    unfolding mode_frequency_amplitude_def cd
    using ne eq by (simp add: Let_def freq_def f_def)
  show ?thesis
    using lp by (simp add: unfold)
qed

lemma mode_frequency_amplitude_lengths:
  assumes "step \<noteq> 0" "2 \<le> length phase" "length amplitude = length phase"
  shows "\<exists>freq amp. mode_frequency_amplitude step amplitude phase = Inr (freq, amp) \<and>
    length freq = length phase \<and> length amp = length phase"
  using assms(3) by (simp add: mode_frequency_amplitude_padded [OF assms(1,2)])

lemma hilbert_loop_shape:
  assumes "step \<noteq> 0" "2 \<le> n"
    and "\<forall>imf \<in> set modes. \<exists>amp phase. analytic imf = Inr (amp, phase)
           \<and> length amp = n \<and> length phase = n"
  shows "\<exists>fs as. hilbert_loop analytic step modes = Inr (fs, as) \<and>
    length fs = length modes \<and> length as = length modes \<and>
    (\<forall>r \<in> set fs. length r = n) \<and> (\<forall>r \<in> set as. length r = n)"
  using assms(3)
proof (induction modes)
  case Nil
  then show ?case by simp
next
  case (Cons imf modes)
  obtain amp phase where a: "analytic imf = Inr (amp, phase)" "length amp = n" "length phase = n"
    using Cons.prems by auto
  have "2 \<le> length phase" "length amp = length phase"
    using a assms(2) by simp_all
  from mode_frequency_amplitude_lengths [OF assms(1) this]
  obtain freq amp' where m: "mode_frequency_amplitude step amp phase = Inr (freq, amp')"
    "length freq = n" "length amp' = n"
    using a(3) by auto
  obtain fs as where r: "hilbert_loop analytic step modes = Inr (fs, as)"
    "length fs = length modes" "length as = length modes"
    "\<forall>r \<in> set fs. length r = n" "\<forall>r \<in> set as. length r = n"
    using Cons.IH Cons.prems by auto
  show ?case
    using a(1) m r by simp
qed

lemma np_array_T_shape:
  assumes "rows \<noteq> []" "\<forall>r \<in> set rows. length r = n"
  shows "np_array_T rows = Inr (Mat2D n rows)"
proof -
  have "hd rows \<in> set rows"
    using assms(1) by simp
  then have "length (hd rows) = n"
    using assms(2) by blast
  then show ?thesis
    using assms by (simp add: np_array_T_def)
qed

lemma compute_instantaneous_frequency_shape:
  assumes "step \<noteq> 0" "2 \<le> n" "2 \<le> length rows"
    and "\<forall>imf \<in> set (take (length rows - 1) rows). \<exists>amp phase. analytic imf = Inr (amp, phase)
           \<and> length amp = n \<and> length phase = n"
  shows "\<exists>fs as. compute_instantaneous_frequency analytic rows step = Inr (Mat2D n fs, Mat2D n as) \<and>
    length fs = length rows - 1 \<and> length as = length rows - 1 \<and>
    (\<forall>r \<in> set fs. length r = n) \<and> (\<forall>r \<in> set as. length r = n)"
proof -
  from hilbert_loop_shape [OF assms(1,2,4)]
  obtain fs as where h: "hilbert_loop analytic step (take (length rows - 1) rows) = Inr (fs, as)"
    "length fs = length (take (length rows - 1) rows)"
    "length as = length (take (length rows - 1) rows)"
    "\<forall>r \<in> set fs. length r = n" "\<forall>r \<in> set as. length r = n"
    by blast
  have lf: "length fs = length rows - 1" and la: "length as = length rows - 1"
    using h(2,3) by simp_all
  have "fs \<noteq> []" "as \<noteq> []"
    using lf la assms(3) by auto
  then have "np_array_T fs = Inr (Mat2D n fs)" "np_array_T as = Inr (Mat2D n as)"
    using h(4,5) by (simp_all add: np_array_T_shape)
  then show ?thesis
    using h(1,4,5) lf la by (simp add: compute_instantaneous_frequency_def)
qed

lemma analyze_signal_returns:
  assumes "step \<noteq> 0" "2 \<le> n" "2 \<le> length (emd std pyemd signal)"
    and "\<forall>imf \<in> set (take (length (emd std pyemd signal) - 1) (emd std pyemd signal)).
           \<exists>amp phase. analytic imf = Inr (amp, phase) \<and> length amp = n \<and> length phase = n"
  shows "\<exists>result self'. analyze_signal std pyemd analytic self signal name step = Inr (result, self')"
proof -
  from compute_instantaneous_frequency_shape [OF assms]
  obtain fs as where c:
    "compute_instantaneous_frequency analytic (emd std pyemd signal) step = Inr (Mat2D n fs, Mat2D n as)"
    "length fs = length (emd std pyemd signal) - 1" "length as = length (emd std pyemd signal) - 1"
    "\<forall>r \<in> set fs. length r = n" "\<forall>r \<in> set as. length r = n"
    by blast
  have same: "length as = length fs"
    using c(2,3) by simp
  have cols: "\<forall>i < length fs. length (fs ! i) = n \<and> length (as ! i) = n"
    using c(4,5) same by simp
  from wafa_smoothing_value [OF same cols, of n 30]
  obtain scols where w: "wafa_smoothing (Mat2D n fs) (Mat2D n as) 30 = Inr (Mat2D n scols)"
    "length scols = length fs" "\<forall>i < length fs. length (scols ! i) = n"
    by auto
  have same': "length as = length scols"
    using same w(2) by simp
  have cols': "\<forall>i < length scols. length (as ! i) = length (scols ! i)"
    using cols w(2,3) by simp
  from compute_statistics_value [OF same' cols', of "emd std pyemd signal" n n]
  obtain st where s: "compute_statistics (emd std pyemd signal) (Mat2D n scols) (Mat2D n as) = Inr st"
    by blast
  show ?thesis
    using c(1) w(1) s by (simp add: analyze_signal_def Let_def)
qed

lemma emd_loop_grows: "length acc \<le> length (fst (emd_loop std k acc r))"
proof (induction k arbitrary: acc r)
  case 0
  then show ?case by simp
next
  case (Suc k)
  have "length (acc @ [sift r]) \<le> length (fst (emd_loop std k (acc @ [sift r]) (map2 (-) r (sift r))))"
    by (rule Suc.IH)
  then show ?case
    by (simp add: Let_def)
qed

lemma simple_emd_rows:
  assumes "4 \<le> length signal" "nan_greater (exact_std signal) eps"
    "\<not> nan_less (exact_std (sift signal)) eps"
  shows "2 \<le> length (simple_emd exact_std signal) \<and> (\<forall>r \<in> set (simple_emd exact_std signal). length r = length signal)"
proof -
  obtain acc' r' where loop: "emd_loop exact_std 10 [] signal = (acc', r')"
    by (cases "emd_loop exact_std 10 [] signal")
  have inv: "length r' = length signal \<and> (\<forall>x \<in> set acc'. length x = length signal)
    \<and> map2 (+) (sum_rows (length signal) acc') r' = map2 (+) (sum_rows (length signal) []) signal
    \<and> (nan_greater (exact_std signal) eps \<longrightarrow> nan_greater (exact_std r') eps)"
    by (rule emd_loop_invariant [OF loop]) simp
  have first: "emd_loop exact_std 10 [] signal = emd_loop exact_std 9 [sift signal] (map2 (-) signal (sift signal))"
    using assms(1,3) by (simp add: numeral_eq_Suc Let_def)
  have "length [sift signal] \<le> length (fst (emd_loop exact_std 9 [sift signal] (map2 (-) signal (sift signal))))"
    by (rule emd_loop_grows)
  then have one: "1 \<le> length acc'"
    using loop first by simp
  have "simple_emd exact_std signal = acc' @ [r']"
    using inv assms(2) by (simp add: simple_emd_def loop)
  then show ?thesis
    using inv one by auto
qed

lemma hilbert_loop_columns:
  assumes "hilbert_loop analytic step modes = Inr (fs, as)"
  shows "length fs = length modes \<and> length as = length modes \<and>
    (\<forall>i < length modes. \<forall>amp phase. analytic (modes ! i) = Inr (amp, phase) \<longrightarrow>
       mode_frequency_amplitude step amp phase = Inr (fs ! i, as ! i))"
  using assms
proof (induction modes arbitrary: fs as)
  case Nil
  then show ?case by simp
next
  case (Cons imf modes)
  from Cons.prems obtain amp phase freq amp' fs' as' where
    a: "analytic imf = Inr (amp, phase)"
    and m: "mode_frequency_amplitude step amp phase = Inr (freq, amp')"
    and r: "hilbert_loop analytic step modes = Inr (fs', as')"
    and e: "fs = freq # fs'" "as = amp' # as'"
    by (auto split: sum.splits prod.splits)
  note ih = Cons.IH [OF r]
  have "\<forall>i < length (imf # modes). \<forall>amp phase. analytic ((imf # modes) ! i) = Inr (amp, phase) \<longrightarrow>
       mode_frequency_amplitude step amp phase = Inr (fs ! i, as ! i)"
  proof (intro allI impI)
    fix i amp2 phase2
    assume i: "i < length (imf # modes)"
      and b: "analytic ((imf # modes) ! i) = Inr (amp2, phase2)"
    show "mode_frequency_amplitude step amp2 phase2 = Inr (fs ! i, as ! i)"
    proof (cases i)
      case 0
      then show ?thesis using a b m e by simp
    next
      case (Suc j)
      then show ?thesis using i b ih e by simp
    qed
  qed
  then show ?case
    using ih e by simp
qed

section \<open>Facts about the decomposition that hold for every computed standard deviation\<close>

lemma emd_loop_sum:
  assumes "emd_loop std k acc r = (acc', r')"
    and "\<forall>x \<in> set acc. length x = length r"
  shows "length r' = length r \<and> (\<forall>x \<in> set acc'. length x = length r)
    \<and> map2 (+) (sum_rows (length r) acc') r' = map2 (+) (sum_rows (length r) acc) r"
  using assms
proof (induction k arbitrary: acc r)
  case 0
  then show ?case by simp
next
  case (Suc k)
  show ?case
  proof (cases "length r < 4 \<or> nan_less (std (sift r)) eps")
    case True
    then have "emd_loop std (Suc k) acc r = (acc, r)" by auto
    with Suc.prems show ?thesis by simp
  next
    case False
    then have step: "emd_loop std k (acc @ [sift r]) (map2 (-) r (sift r)) = (acc', r')"
      using Suc.prems(1) by (simp add: Let_def)
    have len: "length (map2 (-) r (sift r)) = length r"
      by (simp add: sift_def)
    have lens: "\<forall>x \<in> set (acc @ [sift r]). length x = length (map2 (-) r (sift r))"
      using Suc.prems(2) by (simp add: sift_def)
    note ih = Suc.IH [OF step lens, unfolded len]
    have la: "length (sum_rows (length r) acc) = length r"
      using Suc.prems(2) by (rule length_sum_rows)
    have "map2 (+) (sum_rows (length r) (acc @ [sift r])) (map2 (-) r (sift r))
        = map2 (+) (sum_rows (length r) acc) r"
      by (simp only: sum_rows_snoc map2_add_residue_step [OF la])
    with ih show ?thesis by simp
  qed
qed

lemma simple_emd_parts:
  "simple_emd std signal =
     (if nan_greater (std (final_residue std signal)) eps
      then extracted_modes std signal @ [final_residue std signal]
      else extracted_modes std signal)"
  by (simp add: simple_emd_def extracted_modes_def final_residue_def split: prod.splits)

lemma extracted_modes_sum:
  "length (final_residue std signal) = length signal \<and>
   (\<forall>x \<in> set (extracted_modes std signal). length x = length signal) \<and>
   map2 (+) (sum_rows (length signal) (extracted_modes std signal)) (final_residue std signal)
     = signal"
proof -
  have loop: "emd_loop std 10 [] signal = (extracted_modes std signal, final_residue std signal)"
    by (simp add: extracted_modes_def final_residue_def)
  have zero: "map2 (+) (replicate (length signal) 0) signal = signal"
    by (induction signal) simp_all
  have "map2 (+) (sum_rows (length signal) []) signal = signal"
    by (simp add: sum_rows_def zero)
  with emd_loop_sum [OF loop] show ?thesis by simp
qed

lemma emd_loop_first_break:
  assumes "length signal < 4 \<or> nan_less (std (sift signal)) eps"
  shows "emd_loop std 10 [] signal = ([], signal)"
  using assms by (auto simp: numeral_eq_Suc)

lemma simple_emd_first_break:
  assumes "length signal < 4 \<or> nan_less (std (sift signal)) eps"
  shows "simple_emd std signal = (if nan_greater (std signal) eps then [signal] else [])"
  by (simp add: simple_emd_def emd_loop_first_break [where std = std and signal = signal, OF assms])

lemma final_residue_exact_guard:
  assumes "nan_greater (exact_std signal) eps"
  shows "nan_greater (exact_std (final_residue exact_std signal)) eps"
proof -
  have loop: "emd_loop exact_std 10 [] signal
      = (extracted_modes exact_std signal, final_residue exact_std signal)"
    by (simp add: extracted_modes_def final_residue_def)
  from emd_loop_invariant [OF loop] assms show ?thesis by simp
qed

lemma final_residue_exact_flat:
  assumes "\<not> nan_greater (exact_std signal) eps"
  shows "final_residue exact_std signal = signal"
proof -
  have "length signal < 4 \<or> nan_less (exact_std (sift signal)) eps"
  proof (cases "length signal < 4")
    case True
    then show ?thesis by simp
  next
    case False
    then have "signal \<noteq> []" by auto
    then obtain s where s: "exact_std signal = Some s"
      by (simp add: exact_std_Some)
    then have "s \<le> eps" using assms by (simp add: nan_greater_def)
    moreover have "0 \<le> s" using s by (rule exact_std_nonneg)
    ultimately have "(1 / 10) * s < eps"
      using eps_pos by simp
    then show ?thesis
      using s by (simp add: exact_std_sift nan_less_def)
  qed
  then show ?thesis
    by (simp add: final_residue_def emd_loop_first_break)
qed

section \<open>The claims\<close>

text \<open>C1 (as amended): whatever standard deviations are computed, the extracted modes
  and the final residue sum sample by sample to the signal.  The returned collection ends
  with that residue, and then sums to the signal, exactly when the standard deviation
  computed for the final residue exceeds 1e-10; otherwise the residue is not returned and the
  returned rows sum to the signal less the residue.\<close>

theorem simple_emd_additive:
  "(nan_greater (std (final_residue std signal)) eps \<longrightarrow>
      simple_emd std signal = extracted_modes std signal @ [final_residue std signal] \<and>
      sum_rows (length signal) (simple_emd std signal) = signal) \<and>
   (\<not> nan_greater (std (final_residue std signal)) eps \<longrightarrow>
      simple_emd std signal = extracted_modes std signal \<and>
      map2 (+) (sum_rows (length signal) (simple_emd std signal)) (final_residue std signal)
        = signal)"
  using extracted_modes_sum [of std signal]
  by (simp add: simple_emd_parts sum_rows_snoc)

theorem simple_emd_additive_witness:
  "(nan_greater (exact_std (final_residue exact_std [0, 1, 0, 1])) eps \<and>
      sum_rows (length [0, 1, 0, 1 :: real]) (simple_emd exact_std [0, 1, 0, 1]) = [0, 1, 0, 1]) \<and>
   (\<not> nan_greater (exact_std (final_residue exact_std [42, 42, 42, 42])) eps \<and>
      simple_emd exact_std [42, 42, 42, 42] = extracted_modes exact_std [42, 42, 42, 42])"
proof -
  have "nan_greater (exact_std [0, 1, 0, 1]) eps"
    by (simp add: nan_greater_exact_std eps_def power2_eq_square)
  then have up: "nan_greater (exact_std (final_residue exact_std [0, 1, 0, 1])) eps"
    by (rule final_residue_exact_guard)
  have flat: "\<not> nan_greater (exact_std [42, 42, 42, 42]) eps"
    by (simp add: nan_greater_exact_std eps_def power2_eq_square)
  then have down: "\<not> nan_greater (exact_std (final_residue exact_std [42, 42, 42, 42])) eps"
    by (simp add: final_residue_exact_flat)
  from simple_emd_additive [of exact_std "[0, 1, 0, 1]"]
    simple_emd_additive [of exact_std "[42, 42, 42, 42]"] up down
  show ?thesis by blast
qed

text \<open>C1 as stated fails: for the constant signal of value 42 and length 50 (the standard
  deviations computed for the signal and for its tenth part are below 1e-10, as the exact
  ones are) nothing is returned, and the returned rows do not sum to the signal.\<close>

theorem simple_emd_additive_counterexample:
  "sum_rows 50 (simple_emd exact_std (replicate 50 42)) \<noteq> replicate 50 42"
  by (simp add: simple_emd_replicate sum_rows_def)

text \<open>C2 (as amended): for every input shorter than 4 samples the decomposition raises
  nothing and extracts no mode: it returns the input as the only row (the residual) when
  the standard deviation computed for the input exceeds 1e-10, and the empty collection
  otherwise.\<close>

theorem simple_emd_short_input:
  "length signal < 4 \<Longrightarrow>
   simple_emd std signal = (if nan_greater (std signal) eps then [signal] else [])"
  by (rule simple_emd_short)

theorem simple_emd_short_input_witness:
  "length [1, 2, 3 :: real] < 4 \<and> simple_emd exact_std [1, 2, 3] = [[1, 2, 3]]"
  using simple_emd_short_input [of "[1, 2, 3]" exact_std]
  by (simp add: nan_greater_exact_std eps_def power2_eq_square)

text \<open>C2 as stated fails: the three-sample input \<open>[1, 2, 3]\<close> is decomposed without an
  error, into the collection holding the input itself.\<close>

theorem simple_emd_short_input_counterexample:
  "length [1, 2, 3 :: real] < 4 \<and> emd exact_std None [1, 2, 3] = [[1, 2, 3]]"
  using simple_emd_short [of "[1, 2, 3]" exact_std]
  by (simp add: emd_def nan_greater_exact_std eps_def power2_eq_square)




text \<open>C4 (the code departs from the claim): with the external decomposition library
  absent, the analysis of the constant signal of value 42 and length 50, an input of length
  at least 4, returns no result bundle.  The standard deviation computed for the tenth part
  of the signal is below 1e-10 (as the exact one is), so the loop is left at once, at most
  the residual is returned, no true mode exists, the frequency array is one-dimensional, and
  unpacking its shape in \<open>wafa_smoothing\<close> raises \<open>ValueError\<close>.\<close>

theorem analyze_signal_constant_raises:
  "(nan_less (std (sift (replicate 50 42))) eps \<longrightarrow>
      analyze_signal std None analytic self (replicate 50 42) name step = Inl ValueError) \<and>
   analyze_signal exact_std None analytic self (replicate 50 42) name step = Inl ValueError"
proof (intro conjI impI)
  assume "nan_less (std (sift (replicate 50 42))) eps"
  then have "length (replicate 50 (42 :: real)) < 4 \<or> nan_less (std (sift (replicate 50 42))) eps"
    by simp
  from simple_emd_first_break [where std = std and signal = "replicate 50 42", OF this]
  have "length (emd std None (replicate 50 42)) \<le> 1"
    by (simp add: emd_def)
  then show "analyze_signal std None analytic self (replicate 50 42) name step = Inl ValueError"
    by (rule analyze_signal_few_rows)
next
  show "analyze_signal exact_std None analytic self (replicate 50 42) name step = Inl ValueError"
    by (rule analyze_signal_few_rows) (simp add: emd_def simple_emd_replicate)
qed

theorem analyze_signal_constant_raises_witness:
  "nan_less (exact_std (sift (replicate 50 42))) eps \<and>
   analyze_signal exact_std None (\<lambda>x. Inr (map abs x, x)) EMDAnalyzer_init
     (replicate 50 42) ''signal'' 1 = Inl ValueError"
proof -
  have "nan_less (exact_std (sift (replicate 50 42))) eps"
    using eps_pos by (simp add: sift_replicate exact_std_replicate nan_less_def)
  with analyze_signal_constant_raises
    [of exact_std "\<lambda>x. Inr (map abs x, x)" EMDAnalyzer_init "''signal''" 1]
  show ?thesis by blast
qed

text \<open>C5: for frequency and amplitude arrays of the same shape (\<open>n\<close> samples), smoothing
  returns an array of that shape in which, for every mode \<open>i\<close> and sample \<open>j\<close>, with
  \<open>w2 = window div 2\<close> (15 for the default window 30): inside \<open>[w2, n - w2)\<close> the value is
  the amplitude-weighted average of the frequency over the window \<open>j - w2 .. j + w2\<close> when
  the window's total amplitude is positive, and the original value when it is zero; outside
  that range the value is the original one.\<close>

theorem wafa_smoothing_window:
  assumes "length acols = length fcols"
    and "\<forall>i < length fcols. length (fcols ! i) = n \<and> length (acols ! i) = n"
  shows "\<exists>scols. wafa_smoothing (Mat2D n fcols) (Mat2D n acols) window = Inr (Mat2D n scols) \<and>
    length scols = length fcols \<and>
    (\<forall>i < length fcols. length (scols ! i) = n \<and>
       (\<forall>j < n.
          (window div 2 \<le> j \<and> j < n - window div 2
             \<and> window_weight (window div 2) (acols ! i) j > 0 \<longrightarrow>
           scols ! i ! j = window_average (window div 2) (acols ! i) (fcols ! i) j) \<and>
          (window div 2 \<le> j \<and> j < n - window div 2
             \<and> window_weight (window div 2) (acols ! i) j = 0 \<longrightarrow>
           scols ! i ! j = fcols ! i ! j) \<and>
          (j < window div 2 \<or> n - window div 2 \<le> j \<longrightarrow>
           scols ! i ! j = fcols ! i ! j)))"
proof -
  from wafa_smoothing_value [OF assms, of n window]
  obtain scols where s:
    "wafa_smoothing (Mat2D n fcols) (Mat2D n acols) window = Inr (Mat2D n scols)"
    "length scols = length fcols"
    "\<forall>i < length fcols. length (scols ! i) = n \<and>
       (\<forall>j < n. scols ! i ! j =
         (if window div 2 \<le> j \<and> j < n - window div 2
               \<and> window_weight (window div 2) (acols ! i) j > 0
          then window_average (window div 2) (acols ! i) (fcols ! i) j else fcols ! i ! j))"
    by blast
  have "\<forall>i < length fcols. length (scols ! i) = n \<and>
       (\<forall>j < n.
          (window div 2 \<le> j \<and> j < n - window div 2
             \<and> window_weight (window div 2) (acols ! i) j > 0 \<longrightarrow>
           scols ! i ! j = window_average (window div 2) (acols ! i) (fcols ! i) j) \<and>
          (window div 2 \<le> j \<and> j < n - window div 2
             \<and> window_weight (window div 2) (acols ! i) j = 0 \<longrightarrow>
           scols ! i ! j = fcols ! i ! j) \<and>
          (j < window div 2 \<or> n - window div 2 \<le> j \<longrightarrow>
           scols ! i ! j = fcols ! i ! j))"
  proof (intro allI impI)
    fix i assume i: "i < length fcols"
    show "length (scols ! i) = n \<and>
       (\<forall>j < n.
          (window div 2 \<le> j \<and> j < n - window div 2
             \<and> window_weight (window div 2) (acols ! i) j > 0 \<longrightarrow>
           scols ! i ! j = window_average (window div 2) (acols ! i) (fcols ! i) j) \<and>
          (window div 2 \<le> j \<and> j < n - window div 2
             \<and> window_weight (window div 2) (acols ! i) j = 0 \<longrightarrow>
           scols ! i ! j = fcols ! i ! j) \<and>
          (j < window div 2 \<or> n - window div 2 \<le> j \<longrightarrow>
           scols ! i ! j = fcols ! i ! j))"
      using s(3) i by auto
  qed
  with s(1,2) show ?thesis by blast
qed

theorem wafa_smoothing_window_witness:
  "\<exists>scols. wafa_smoothing (Mat2D 3 [[1, 2, 6]]) (Mat2D 3 [[1, 1, 1]]) 2 = Inr (Mat2D 3 scols) \<and>
     scols ! 0 ! 0 = 1 \<and> scols ! 0 ! 1 = 3 \<and> scols ! 0 ! 2 = 6"
proof -
  have shape: "length [[1, 1, 1 :: real]] = length [[1, 2, 6 :: real]]"
    "\<forall>i < length [[1, 2, 6 :: real]].
       length ([[1, 2, 6 :: real]] ! i) = 3 \<and> length ([[1, 1, 1 :: real]] ! i) = 3"
    by simp_all
  have weight: "window_weight 1 [1, 1, 1] 1 = 3"
    by (simp add: window_weight_def numeral_eq_Suc)
  have average: "window_average 1 [1, 1, 1] [1, 2, 6] 1 = 3"
    by (simp add: window_average_def window_weight_def numeral_eq_Suc)
  from wafa_smoothing_window [OF shape, of 2]
  obtain scols where s:
    "wafa_smoothing (Mat2D 3 [[1, 2, 6]]) (Mat2D 3 [[1, 1, 1]]) 2 = Inr (Mat2D 3 scols)"
    and v: "\<forall>j < 3.
          (2 div 2 \<le> j \<and> j < 3 - 2 div 2 \<and> window_weight (2 div 2) [1, 1, 1] j > 0 \<longrightarrow>
           scols ! 0 ! j = window_average (2 div 2) [1, 1, 1] [1, 2, 6] j) \<and>
          (2 div 2 \<le> j \<and> j < 3 - 2 div 2 \<and> window_weight (2 div 2) [1, 1, 1] j = 0 \<longrightarrow>
           scols ! 0 ! j = [1, 2, 6] ! j) \<and>
          (j < 2 div 2 \<or> 3 - 2 div 2 \<le> j \<longrightarrow> scols ! 0 ! j = [1, 2, 6] ! j)"
    by auto
  have "scols ! 0 ! 0 = 1" using v [THEN spec, of 0] by simp
  moreover have "scols ! 0 ! 1 = 3" using v [THEN spec, of 1] weight average by simp
  moreover have "scols ! 0 ! 2 = 6" using v [THEN spec, of 2] by simp
  ultimately show ?thesis using s by blast
qed

text \<open>C6: (1) for one mode, with a non-zero sampling interval and a phase of at least two
  samples, the loop body returns a frequency and an amplitude sequence of one and the same
  length, the shorter of the amplitude's and the phase's, the longer sequence cut to it; the
  frequency at \<open>k\<close> is \<open>(1 / dt) * (phase[k + 1] - phase[k]) / (2 * pi)\<close>, and at the last
  sample of the phase it repeats the last difference.  (2) When the analytic signal of each
  true mode has the mode's length \<open>n\<close>, the function returns two arrays of \<open>n\<close> samples
  with one column per true mode (every row but the last, the residual), column \<open>i\<close> being
  what the loop body returns for row \<open>i\<close>.\<close>

theorem instantaneous_frequency_per_mode:
  "(step \<noteq> 0 \<longrightarrow> 2 \<le> length phase \<longrightarrow>
     (\<exists>freq amp. mode_frequency_amplitude step amplitude phase = Inr (freq, amp) \<and>
        length freq = length amp \<and>
        length freq = min (length amplitude) (length phase) \<and>
        amp = take (length phase) amplitude \<and>
        (\<forall>k < length freq.
           freq ! k = (1 / step) * (phase ! min (k + 1) (length phase - 1)
                         - phase ! min k (length phase - 2)) / (2 * pi)))) \<and>
   (step \<noteq> 0 \<longrightarrow> 2 \<le> n \<longrightarrow> 2 \<le> length rows \<longrightarrow>
     (\<forall>imf \<in> set (take (length rows - 1) rows). \<exists>amp phase. analytic imf = Inr (amp, phase)
           \<and> length amp = n \<and> length phase = n) \<longrightarrow>
     (\<exists>fs as. compute_instantaneous_frequency analytic rows step = Inr (Mat2D n fs, Mat2D n as) \<and>
        length fs = length rows - 1 \<and> length as = length rows - 1 \<and>
        (\<forall>i < length rows - 1. \<forall>amp phase. analytic (rows ! i) = Inr (amp, phase) \<longrightarrow>
           mode_frequency_amplitude step amp phase = Inr (fs ! i, as ! i))))"
proof (intro conjI impI)
  assume "step \<noteq> 0" "2 \<le> length phase"
  then show "\<exists>freq amp. mode_frequency_amplitude step amplitude phase = Inr (freq, amp) \<and>
        length freq = length amp \<and>
        length freq = min (length amplitude) (length phase) \<and>
        amp = take (length phase) amplitude \<and>
        (\<forall>k < length freq.
           freq ! k = (1 / step) * (phase ! min (k + 1) (length phase - 1)
                         - phase ! min k (length phase - 2)) / (2 * pi))"
    by (simp add: mode_frequency_amplitude_padded min.commute)
next
  assume h: "step \<noteq> 0" "2 \<le> n" "2 \<le> length rows"
    "\<forall>imf \<in> set (take (length rows - 1) rows). \<exists>amp phase. analytic imf = Inr (amp, phase)
           \<and> length amp = n \<and> length phase = n"
  from hilbert_loop_shape [OF h(1,2,4)]
  obtain fs as where l: "hilbert_loop analytic step (take (length rows - 1) rows) = Inr (fs, as)"
    "\<forall>r \<in> set fs. length r = n" "\<forall>r \<in> set as. length r = n"
    by blast
  note c = hilbert_loop_columns [OF l(1)]
  have lf: "length fs = length rows - 1" and la: "length as = length rows - 1"
    using c by simp_all
  have "fs \<noteq> []" "as \<noteq> []"
    using lf la h(3) by auto
  then have "np_array_T fs = Inr (Mat2D n fs)" "np_array_T as = Inr (Mat2D n as)"
    using l(2,3) by (simp_all add: np_array_T_shape)
  then have "compute_instantaneous_frequency analytic rows step = Inr (Mat2D n fs, Mat2D n as)"
    using l(1) by (simp add: compute_instantaneous_frequency_def)
  moreover have "\<forall>i < length rows - 1. \<forall>amp phase. analytic (rows ! i) = Inr (amp, phase) \<longrightarrow>
           mode_frequency_amplitude step amp phase = Inr (fs ! i, as ! i)"
    using c by simp
  ultimately show "\<exists>fs as. compute_instantaneous_frequency analytic rows step
          = Inr (Mat2D n fs, Mat2D n as) \<and>
        length fs = length rows - 1 \<and> length as = length rows - 1 \<and>
        (\<forall>i < length rows - 1. \<forall>amp phase. analytic (rows ! i) = Inr (amp, phase) \<longrightarrow>
           mode_frequency_amplitude step amp phase = Inr (fs ! i, as ! i))"
    using lf la by blast
qed

theorem instantaneous_frequency_per_mode_witness:
  "\<exists>fs as. compute_instantaneous_frequency (\<lambda>x. Inr (map abs x, x)) [[0, 1, 3], [5, 5, 5]] 1
       = Inr (Mat2D 3 fs, Mat2D 3 as) \<and>
     length fs = 1 \<and> length as = 1 \<and> as ! 0 = [0, 1, 3] \<and> length (fs ! 0) = 3 \<and>
     fs ! 0 ! 0 = 1 / (2 * pi) \<and> fs ! 0 ! 1 = 2 / (2 * pi) \<and> fs ! 0 ! 2 = 2 / (2 * pi)"
proof -
  note t = instantaneous_frequency_per_mode [of 1 "[0, 1, 3]" "[0, 1, 3]" 3 "[[0, 1, 3], [5, 5, 5]]" "\<lambda>x. Inr (map abs x, x)"]
  from t [THEN conjunct1]
  obtain freq amp where r: "mode_frequency_amplitude 1 [0, 1, 3] [0, 1, 3] = Inr (freq, amp)"
    "length freq = 3" "amp = [0, 1, 3]"
    and v: "\<forall>k < length freq.
        freq ! k = (1 / 1) * ([0, 1, 3] ! min (k + 1) (length [0, 1, 3 :: real] - 1)
                      - [0, 1, 3] ! min k (length [0, 1, 3 :: real] - 2)) / (2 * pi)"
    by auto
  have f0: "freq ! 0 = 1 / (2 * pi)" using v [THEN spec, of 0] r(2) by simp
  have f1: "freq ! 1 = 2 / (2 * pi)" using v [THEN spec, of 1] r(2) by simp
  have f2: "freq ! 2 = 2 / (2 * pi)" using v [THEN spec, of 2] r(2) by simp
  from t [THEN conjunct2]
  obtain fs as where c:
    "compute_instantaneous_frequency (\<lambda>x. Inr (map abs x, x)) [[0, 1, 3], [5, 5, 5]] 1
       = Inr (Mat2D 3 fs, Mat2D 3 as)"
    "length fs = 1" "length as = 1"
    and m: "\<forall>i < length [[0, 1, 3], [5, 5, 5 :: real]] - 1. \<forall>amp phase.
        (\<lambda>x. Inr (map abs x, x)) ([[0, 1, 3], [5, 5, 5]] ! i) = Inr (amp, phase) \<longrightarrow>
           mode_frequency_amplitude 1 amp phase = Inr (fs ! i, as ! i)"
    by auto
  have "mode_frequency_amplitude 1 [0, 1, 3] [0, 1, 3] = Inr (fs ! 0, as ! 0)"
    using m [THEN spec, of 0] by simp
  with r have "fs ! 0 = freq" "as ! 0 = [0, 1, 3]"
    by simp_all
  with c r(2) f0 f1 f2 show ?thesis
    by auto
qed

text \<open>C7 (as amended): for frequency and amplitude arrays of the same shape, the statistics
  are returned with one entry per mode, and for every mode the mean period is the reciprocal
  of the mean frequency when the mean frequency is positive, and 0 otherwise.\<close>

theorem statistics_period:
  assumes "length acols = length fcols"
    and "\<forall>i < length fcols. length (acols ! i) = length (fcols ! i)"
  shows "\<exists>st. compute_statistics rows (Mat2D n fcols) (Mat2D m acols) = Inr st \<and>
    length (mean_frequencies st) = length fcols \<and>
    length (mean_periods st) = length fcols \<and>
    (\<forall>i < length fcols.
       (mean_frequencies st ! i > 0 \<longrightarrow> mean_periods st ! i = 1 / mean_frequencies st ! i) \<and>
       (\<not> mean_frequencies st ! i > 0 \<longrightarrow> mean_periods st ! i = 0))"
  using compute_statistics_value [OF assms, of rows n m] by auto

theorem statistics_period_witness:
  "\<exists>st. compute_statistics [] (Mat2D 2 [[1, 3]]) (Mat2D 2 [[1, 1]]) = Inr st \<and>
     mean_frequencies st ! 0 = 2 \<and> mean_periods st ! 0 = 1 / 2"
proof -
  have shape: "length [[1, 1 :: real]] = length [[1, 3 :: real]]"
    "\<forall>i < length [[1, 3 :: real]]. length ([[1, 1 :: real]] ! i) = length ([[1, 3 :: real]] ! i)"
    by simp_all
  have computed: "compute_statistics [] (Mat2D 2 [[1, 3]]) (Mat2D 2 [[1, 1]])
      = Inr \<lparr>mean_frequencies = [2], mean_periods = [1 / 2], mean_amplitudes = [Some 1]\<rparr>"
    by (simp add: compute_statistics_def mode_statistics_def np_mul_def checked_div_def np_mean_def)
  from statistics_period [OF shape, of "[]" 2 2]
  obtain st where st: "compute_statistics [] (Mat2D 2 [[1, 3]]) (Mat2D 2 [[1, 1]]) = Inr st"
    and rel: "mean_frequencies st ! 0 > 0 \<longrightarrow> mean_periods st ! 0 = 1 / mean_frequencies st ! 0"
    by auto
  from st computed
  have "st = \<lparr>mean_frequencies = [2], mean_periods = [1 / 2], mean_amplitudes = [Some 1]\<rparr>"
    by simp
  then have f: "mean_frequencies st ! 0 = 2" by simp
  with rel have "mean_periods st ! 0 = 1 / 2" by simp
  with st f show ?thesis by blast
qed

text \<open>C7 as stated fails: for a mode of frequency -1 throughout and amplitude 1 the mean
  frequency is -1, not 0, and the mean period is 0, not its reciprocal.\<close>

theorem statistics_period_counterexample:
  "\<exists>st. compute_statistics [] (Mat2D 2 [[-1, -1]]) (Mat2D 2 [[1, 1]]) = Inr st \<and>
     mean_frequencies st ! 0 \<noteq> 0 \<and> mean_periods st ! 0 \<noteq> 1 / mean_frequencies st ! 0"
  by (simp add: compute_statistics_def mode_statistics_def np_mul_def checked_div_def np_mean_def)

text \<open>C9: the statistics never perform a division with a zero denominator, whatever the
  arrays; and for arrays of the same shape, every mode whose amplitudes sum to zero gets the
  mean frequency 0 and the mean period 0.\<close>

theorem statistics_zero_amplitude:
  "compute_statistics rows F A \<noteq> Inl ZeroDivisionError \<and>
   (length acols = length fcols \<longrightarrow>
    (\<forall>i < length fcols. length (acols ! i) = length (fcols ! i)) \<longrightarrow>
    (\<exists>st. compute_statistics rows (Mat2D n fcols) (Mat2D m acols) = Inr st \<and>
       (\<forall>i < length fcols. sum_list (acols ! i) = 0 \<longrightarrow>
          mean_frequencies st ! i = 0 \<and> mean_periods st ! i = 0)))"
proof (intro conjI impI)
  show "compute_statistics rows F A \<noteq> Inl ZeroDivisionError"
    by (rule compute_statistics_not_div)
next
  assume shape: "length acols = length fcols"
    "\<forall>i < length fcols. length (acols ! i) = length (fcols ! i)"
  from compute_statistics_value [OF shape, of rows n m]
  show "\<exists>st. compute_statistics rows (Mat2D n fcols) (Mat2D m acols) = Inr st \<and>
       (\<forall>i < length fcols. sum_list (acols ! i) = 0 \<longrightarrow>
          mean_frequencies st ! i = 0 \<and> mean_periods st ! i = 0)"
    by auto
qed

theorem statistics_zero_amplitude_witness:
  "compute_statistics [] (Mat2D 2 [[3, 4]]) (Mat2D 2 [[0, 0]]) \<noteq> Inl ZeroDivisionError \<and>
   sum_list ([[0, 0 :: real]] ! 0) = 0 \<and>
   (\<exists>st. compute_statistics [] (Mat2D 2 [[3, 4]]) (Mat2D 2 [[0, 0]]) = Inr st \<and>
      mean_frequencies st ! 0 = 0 \<and> mean_periods st ! 0 = 0)"
  using statistics_zero_amplitude
    [of "[]" "Mat2D 2 [[3, 4]]" "Mat2D 2 [[0, 0]]" "[[0, 0]]" "[[3, 4]]" 2 2]
  by auto

text \<open>C8: when \<open>analyze_signal\<close> returns a result bundle for a name, looking the name up
  in the analyzer it leaves gives that bundle, and the name is among the listed names.\<close>

theorem analyze_signal_cache_roundtrip:
  assumes "analyze_signal std pyemd analytic self signal name step = Inr (result, self')"
  shows "get_analysis_results self' name = Some result \<and>
    name \<in> set (list_analyzed_signals self')"
  using analyze_signal_cached [OF assms] analyze_signal_keys [OF assms]
  by (simp add: get_analysis_results_def map_of_dict_set)

theorem analyze_signal_cache_roundtrip_witness:
  "\<exists>result self'.
     analyze_signal exact_std None (\<lambda>x. Inr (map abs x, x)) EMDAnalyzer_init [0, 1, 0, 1] ''cases'' 1
       = Inr (result, self') \<and>
     get_analysis_results self' ''cases'' = Some result \<and>
     ''cases'' \<in> set (list_analyzed_signals self')"
proof -
  have rows: "2 \<le> length (simple_emd exact_std [0, 1, 0, 1]) \<and>
      (\<forall>r \<in> set (simple_emd exact_std [0, 1, 0, 1]). length r = length [0, 1, 0, 1 :: real])"
    by (rule simple_emd_rows)
      (simp_all add: sift_def nan_greater_exact_std nan_less_exact_std eps_def power2_eq_square)
  have modes: "\<forall>imf \<in> set (take (length (emd exact_std None [0, 1, 0, 1]) - 1) (emd exact_std None [0, 1, 0, 1])).
      \<exists>amp phase. (\<lambda>x. Inr (map abs x, x)) imf = Inr (amp, phase) \<and> length amp = 4 \<and> length phase = 4"
    using rows by (auto simp: emd_def dest!: in_set_takeD)
  have two: "2 \<le> length (emd exact_std None [0, 1, 0, 1])"
    using rows by (simp add: emd_def)
  have "(1 :: real) \<noteq> 0" "(2 :: nat) \<le> 4"
    by simp_all
  from analyze_signal_returns [OF this two modes, of EMDAnalyzer_init "''cases''"]
  obtain result self' where
    ok: "analyze_signal exact_std None (\<lambda>x. Inr (map abs x, x)) EMDAnalyzer_init [0, 1, 0, 1] ''cases'' 1
       = Inr (result, self')"
    by blast
  from analyze_signal_cache_roundtrip [OF ok] ok show ?thesis
    by blast
qed

text \<open>C10: after any sequence of analyses on a fresh analyzer, looking up a name that is
  not among the analysed ones gives no result, and no error.\<close>

theorem get_analysis_results_unknown:
  assumes "name \<notin> set (map (\<lambda>c. fst (snd c)) calls)"
  shows "get_analysis_results (analyze_all std pyemd analytic EMDAnalyzer_init calls) name = None"
proof -
  have "set (list_analyzed_signals EMDAnalyzer_init) = {}"
    by (simp add: list_analyzed_signals_def EMDAnalyzer_init_def)
  then have "name \<notin> set (list_analyzed_signals (analyze_all std pyemd analytic EMDAnalyzer_init calls))"
    using analyze_all_keys [of std pyemd analytic EMDAnalyzer_init calls] assms by auto
  then show ?thesis by (rule get_analysis_results_None)
qed

theorem get_analysis_results_unknown_witness:
  "''deaths'' \<notin> set (map (\<lambda>c. fst (snd c)) [([0, 1, 0, 1 :: real], ''cases'', 1 :: real)]) \<and>
   get_analysis_results
     (analyze_all exact_std None (\<lambda>x. Inr (map abs x, x)) EMDAnalyzer_init [([0, 1, 0, 1], ''cases'', 1)])
     ''deaths'' = None"
  using get_analysis_results_unknown
    [of "''deaths''" "[([0, 1, 0, 1], ''cases'', 1)]" exact_std None "\<lambda>x. Inr (map abs x, x)"]
  by simp

end
